theory Spec2Isabelle
  imports Main
begin

section \<open>JavaScript values used by the component\<close>

text \<open>
  The component \<^verbatim>\<open>UserManagement.tsx\<close> keeps its whole state in React state cells
  and changes it in event handlers. Each handler is embedded as a function from the
  state before the event to the state after it.

  Numbers. Record identifiers are JavaScript numbers, that is IEEE-754 doubles. The only
  arithmetic done on them is \<^verbatim>\<open>Math.max(...users.map((u) => u.id)) + 1\<close>, and
  \<^verbatim>\<open>Math.max()\<close> of no arguments is \<^verbatim>\<open>-Infinity\<close>. The model has \<^verbatim>\<open>-Infinity\<close> and
  the doubles of integer value: \<open>Num n\<close> is the double whose value is the integer \<open>n\<close>.
  Every integer up to \<open>2^53\<close> in absolute value is a double; beyond, a double keeps 53
  significant bits, and a sum is the exact sum rounded to the nearest double, ties to the
  even significand. Exponent overflow is left out: the sum of a double and 1 never
  leaves the range of the doubles.
\<close>

datatype jsnum = NegInf | Num int

fun js_max2 :: "jsnum \<Rightarrow> jsnum \<Rightarrow> jsnum" where
  "js_max2 NegInf y = y"
| "js_max2 (Num a) NegInf = Num a"
| "js_max2 (Num a) (Num b) = Num (max a b)"

definition Math_max :: "jsnum list \<Rightarrow> jsnum" where
  "Math_max xs = foldl js_max2 NegInf xs"

fun bit_length :: "nat \<Rightarrow> nat" where
  "bit_length n = (if n = 0 then 0 else Suc (bit_length (n div 2)))"

definition round_double :: "int \<Rightarrow> int" where
  "round_double n =
     (if \<bar>n\<bar> \<le> 2 ^ 53 then n
      else
        (let e = bit_length (nat \<bar>n\<bar>) - 53;
             q = \<bar>n\<bar> div 2 ^ e;
             r = \<bar>n\<bar> mod 2 ^ e;
             h = 2 ^ (e - 1);
             m = (if r < h \<or> (r = h \<and> even q) then q else q + 1)
         in sgn n * (m * 2 ^ e)))"

fun js_add :: "jsnum \<Rightarrow> jsnum \<Rightarrow> jsnum" where
  "js_add (Num a) (Num b) = Num (round_double (a + b))"
| "js_add NegInf y = NegInf"
| "js_add (Num a) NegInf = NegInf"

fun js_le :: "jsnum \<Rightarrow> jsnum \<Rightarrow> bool" where
  "js_le NegInf y = True"
| "js_le (Num a) NegInf = False"
| "js_le (Num a) (Num b) = (a \<le> b)"

text \<open>
  Strings. A JavaScript string is a sequence of UTF-16 code units; \<^typ>\<open>string\<close> covers
  the code units below 256 (ISO Latin-1), on which the character classes and the case
  mapping below are those of JavaScript. \<^verbatim>\<open>\d\<close> is \<open>[0-9]\<close>, \<^verbatim>\<open>\w\<close> is
  \<open>[A-Za-z0-9_]\<close>, and \<^verbatim>\<open>\s\<close> is, in this range, tab, line feed, vertical tab, form
  feed, carriage return, space and no-break space.
\<close>

definition is_digit :: "char \<Rightarrow> bool" where
  "is_digit c = (c \<in> set ''0123456789'')"

definition is_lower_az :: "char \<Rightarrow> bool" where
  "is_lower_az c = (c \<in> set ''abcdefghijklmnopqrstuvwxyz'')"

definition is_upper_az :: "char \<Rightarrow> bool" where
  "is_upper_az c = (c \<in> set ''ABCDEFGHIJKLMNOPQRSTUVWXYZ'')"

definition is_word :: "char \<Rightarrow> bool" where
  "is_word c = (is_lower_az c \<or> is_upper_az c \<or> is_digit c \<or> c = CHR ''_'')"

definition is_space :: "char \<Rightarrow> bool" where
  "is_space c = (c \<in> set [CHR 0x09, CHR 0x0A, CHR 0x0B, CHR 0x0C, CHR 0x0D, CHR 0x20, CHR 0xA0])"

text \<open>
  \<^verbatim>\<open>String.prototype.toLowerCase\<close>: in Latin-1 the letters with a lower-case partner
  are \<open>A\<close>..\<open>Z\<close> and \<open>0xC0\<close>..\<open>0xDE\<close> without the multiplication sign \<open>0xD7\<close>; the
  partner is 32 code units further.
\<close>

definition lower_char :: "char \<Rightarrow> char" where
  "lower_char c =
     (let n = (of_char c :: nat)
      in if (65 \<le> n \<and> n \<le> 90) \<or> (192 \<le> n \<and> n \<le> 222 \<and> n \<noteq> 215)
         then char_of (n + 32) else c)"

definition toLowerCase :: "string \<Rightarrow> string" where
  "toLowerCase s = map lower_char s"

text \<open>\<^verbatim>\<open>s.startsWith(t)\<close> and \<^verbatim>\<open>s.includes(t)\<close>: \<open>t\<close> occurs in \<open>s\<close> at some position.\<close>

definition startsWith :: "string \<Rightarrow> string \<Rightarrow> bool" where
  "startsWith s t = (take (length t) s = t)"

fun includes_str :: "string \<Rightarrow> string \<Rightarrow> bool" where
  "includes_str [] t = (t = [])"
| "includes_str (c # s) t = (startsWith (c # s) t \<or> includes_str s t)"

text \<open>
  \<^verbatim>\<open>s.replace(/\s+/g, "-")\<close>: every maximal run of white space becomes one hyphen.
  The flag says whether the previous code unit belonged to a run already replaced.
\<close>

fun replace_runs :: "bool \<Rightarrow> string \<Rightarrow> string" where
  "replace_runs inrun [] = []"
| "replace_runs inrun (c # s) =
     (if is_space c then (if inrun then replace_runs True s else CHR ''-'' # replace_runs True s)
      else c # replace_runs False s)"

definition replace_ws :: "string \<Rightarrow> string" where
  "replace_ws s = replace_runs False s"

section \<open>Regular expressions\<close>

text \<open>
  The validator tests its input against regular expression literals with
  \<^verbatim>\<open>RegExp.prototype.test\<close>. All of them are anchored at both ends (\<^verbatim>\<open>^...$\<close>, no
  flags) and use only character classes, sequence, alternation and repetition, so
  \<^verbatim>\<open>test\<close> decides membership of the whole input in the language of the body. The
  embedding keeps the expressions as data and decides membership by derivatives.
\<close>

datatype rexp =
    Eps
  | Cls "char \<Rightarrow> bool"
  | Alt rexp rexp
  | Seq rexp rexp
  | Star rexp

definition Chr :: "char \<Rightarrow> rexp" where
  "Chr c = Cls (\<lambda>x. x = c)"

definition Opt :: "rexp \<Rightarrow> rexp" where
  "Opt r = Alt Eps r"

definition Plus :: "rexp \<Rightarrow> rexp" where
  "Plus r = Seq r (Star r)"

primrec Lit :: "string \<Rightarrow> rexp" where
  "Lit [] = Eps"
| "Lit (c # cs) = Seq (Chr c) (Lit cs)"

text \<open>\<open>r{n}\<close>, \<open>r{0,n}\<close>, and from them \<open>r{n,}\<close> and \<open>r{n,m}\<close>.\<close>

primrec Exactly :: "nat \<Rightarrow> rexp \<Rightarrow> rexp" where
  "Exactly 0 r = Eps"
| "Exactly (Suc n) r = Seq r (Exactly n r)"

primrec AtMost :: "nat \<Rightarrow> rexp \<Rightarrow> rexp" where
  "AtMost 0 r = Eps"
| "AtMost (Suc n) r = Opt (Seq r (AtMost n r))"

definition AtLeast :: "nat \<Rightarrow> rexp \<Rightarrow> rexp" where
  "AtLeast n r = Seq (Exactly n r) (Star r)"

definition Between :: "nat \<Rightarrow> nat \<Rightarrow> rexp \<Rightarrow> rexp" where
  "Between n m r = Seq (Exactly n r) (AtMost (m - n) r)"

primrec nullable :: "rexp \<Rightarrow> bool" where
  "nullable Eps = True"
| "nullable (Cls p) = False"
| "nullable (Alt r s) = (nullable r \<or> nullable s)"
| "nullable (Seq r s) = (nullable r \<and> nullable s)"
| "nullable (Star r) = True"

text \<open>The expression \<open>Cls (\<lambda>_. False)\<close> matches nothing.\<close>

primrec deriv :: "char \<Rightarrow> rexp \<Rightarrow> rexp" where
  "deriv c Eps = Cls (\<lambda>_. False)"
| "deriv c (Cls p) = (if p c then Eps else Cls (\<lambda>_. False))"
| "deriv c (Alt r s) = Alt (deriv c r) (deriv c s)"
| "deriv c (Seq r s) =
     (if nullable r then Alt (Seq (deriv c r) s) (deriv c s) else Seq (deriv c r) s)"
| "deriv c (Star r) = Seq (deriv c r) (Star r)"

primrec regex_test :: "rexp \<Rightarrow> string \<Rightarrow> bool" where
  "regex_test r [] = nullable r"
| "regex_test r (c # cs) = regex_test (deriv c r) cs"

text \<open>The language of an expression, against which the matcher is verified.\<close>

definition conc :: "string set \<Rightarrow> string set \<Rightarrow> string set" where
  "conc A B = {u @ v | u v. u \<in> A \<and> v \<in> B}"

inductive_set star :: "string set \<Rightarrow> string set" for A :: "string set" where
  star_empty: "[] \<in> star A"
| star_step: "u \<in> A \<Longrightarrow> v \<in> star A \<Longrightarrow> u @ v \<in> star A"

primrec lang :: "rexp \<Rightarrow> string set" where
  "lang Eps = {[]}"
| "lang (Cls p) = {[c] | c. p c}"
| "lang (Alt r s) = lang r \<union> lang s"
| "lang (Seq r s) = conc (lang r) (lang s)"
| "lang (Star r) = star (lang r)"

text \<open>
  The literals of \<^verbatim>\<open>validateField\<close>:
  \<^verbatim>\<open>/^[^\s@]+@[^\s@]+\.[^\s@]+$/\<close>,
  \<^verbatim>\<open>/^\+?[\d\s-]{10,}$/\<close> and
  \<^verbatim>\<open>/^(https?:\/\/)?([\da-z\.-]+)\.([a-z\.]{2,6})([\/\w \.-]*)*\/?$/\<close>.
\<close>

definition email_atom :: "char \<Rightarrow> bool" where
  "email_atom c = (\<not> is_space c \<and> c \<noteq> CHR ''@'')"

definition email_re :: rexp where
  "email_re =
     Seq (Plus (Cls email_atom))
       (Seq (Chr CHR ''@'')
         (Seq (Plus (Cls email_atom))
           (Seq (Chr CHR ''.'') (Plus (Cls email_atom)))))"

definition phone_atom :: "char \<Rightarrow> bool" where
  "phone_atom c = (is_digit c \<or> is_space c \<or> c = CHR ''-'')"

definition phone_re :: rexp where
  "phone_re = Seq (Opt (Chr CHR ''+'')) (AtLeast 10 (Cls phone_atom))"

definition website_re :: rexp where
  "website_re =
     Seq (Opt (Seq (Lit ''http'') (Seq (Opt (Chr CHR ''s'')) (Lit ''://''))))
       (Seq (Plus (Cls (\<lambda>c. is_digit c \<or> is_lower_az c \<or> c = CHR ''.'' \<or> c = CHR ''-'')))
         (Seq (Chr CHR ''.'')
           (Seq (Between 2 6 (Cls (\<lambda>c. is_lower_az c \<or> c = CHR ''.'')))
             (Seq (Star (Star (Cls (\<lambda>c. c = CHR ''/'' \<or> is_word c \<or> c = CHR '' '' \<or>
                                        c = CHR ''.'' \<or> c = CHR ''-''))))
               (Opt (Chr CHR ''/''))))))"

section \<open>Data model\<close>

text \<open>
  \<^verbatim>\<open>interface Address\<close>, \<^verbatim>\<open>interface Company\<close> and \<^verbatim>\<open>interface User\<close>. A record built
  by the create branch of \<^verbatim>\<open>handleSubmit\<close> is cast with \<^verbatim>\<open>as User\<close> from a partial
  draft, so at run time its \<^verbatim>\<open>name\<close>, \<^verbatim>\<open>email\<close>, \<^verbatim>\<open>phone\<close> and \<^verbatim>\<open>website\<close> can be
  absent (\<^verbatim>\<open>undefined\<close>): these are options. \<^verbatim>\<open>id\<close>, \<^verbatim>\<open>username\<close>, \<^verbatim>\<open>company\<close> and
  \<^verbatim>\<open>address\<close> are always written.
\<close>

record address =
  street :: string
  city :: string

record company =
  company_name :: string

record user =
  uid :: jsnum
  name :: "string option"
  email :: "string option"
  phone :: "string option"
  username :: string
  website :: "string option"
  company :: company
  address :: address

text \<open>
  \<^verbatim>\<open>type FormData\<close>: every key optional. The keys \<^verbatim>\<open>company\<close> and \<^verbatim>\<open>address\<close> that the
  edit action copies into the draft with \<^verbatim>\<open>...user\<close> are left out: both branches of
  \<^verbatim>\<open>handleSubmit\<close> overwrite them, and nothing else reads them.
\<close>

record form_data =
  fd_id :: "jsnum option"
  fd_name :: "string option"
  fd_email :: "string option"
  fd_phone :: "string option"
  fd_username :: "string option"
  fd_website :: "string option"
  fd_company_name :: "string option"
  fd_street :: "string option"
  fd_city :: "string option"

definition empty_form :: form_data where
  "empty_form =
     \<lparr>fd_id = None, fd_name = None, fd_email = None, fd_phone = None, fd_username = None,
      fd_website = None, fd_company_name = None, fd_street = None, fd_city = None\<rparr>"

text \<open>The seven inputs of the modal form, by their \<^verbatim>\<open>name\<close> attribute.\<close>

datatype field = Name | Email | Phone | Street | City | CompanyName | Website

definition all_fields :: "field list" where
  "all_fields = [Name, Email, Phone, Street, City, CompanyName, Website]"

datatype form_mode = Create | Edit

datatype js_error = TypeError

record state =
  users :: "user list"
  loading :: bool
  searchTerm :: string
  formMode :: "form_mode option"
  currentUser :: "user option"
  formData :: form_data
  formErrors :: "field \<Rightarrow> string option"
  deleteConfirmation :: "jsnum option"
  alerts :: "string list"

text \<open>The state of the first render; \<open>alerts\<close> logs the calls of \<^verbatim>\<open>alert\<close>.\<close>

definition initial_state :: state where
  "initial_state =
     \<lparr>users = [], loading = True, searchTerm = [], formMode = None, currentUser = None,
      formData = empty_form, formErrors = Map.empty, deleteConfirmation = None, alerts = []\<rparr>"

section \<open>Event handlers\<close>

text \<open>\<^verbatim>\<open>fetchUsers\<close>: the request resolves with a list of records, or fails.\<close>

definition fetchUsers_ok :: "user list \<Rightarrow> state \<Rightarrow> state" where
  "fetchUsers_ok data s = s\<lparr>users := data, loading := False\<rparr>"

definition fetchUsers_failed :: "state \<Rightarrow> state" where
  "fetchUsers_failed s =
     s\<lparr>alerts := alerts s @ [''Failed to fetch users. Please try again.''], loading := False\<rparr>"

text \<open>
  \<^verbatim>\<open>validateField\<close>: the \<^verbatim>\<open>switch\<close> that computes \<^verbatim>\<open>error\<close>, then the update of the
  error map at that field only. For \<^verbatim>\<open>street\<close> and \<^verbatim>\<open>city\<close> the message is the
  capitalised field name followed by \<^verbatim>\<open>is required\<close>.
\<close>

fun field_error :: "field \<Rightarrow> string \<Rightarrow> string" where
  "field_error Name v =
     (if length v < 3 then ''Name must be at least 3 characters long'' else [])"
| "field_error Email v =
     (if \<not> regex_test email_re v then ''Invalid email format'' else [])"
| "field_error Phone v =
     (if \<not> regex_test phone_re v then ''Invalid phone number'' else [])"
| "field_error Street v = (if v = [] then ''Street is required'' else [])"
| "field_error City v = (if v = [] then ''City is required'' else [])"
| "field_error CompanyName v =
     (if v \<noteq> [] \<and> length v < 3 then ''Company name must be at least 3 characters long''
      else [])"
| "field_error Website v =
     (if v \<noteq> [] \<and> \<not> regex_test website_re v then ''Invalid website URL'' else [])"

definition validateField :: "field \<Rightarrow> string \<Rightarrow> state \<Rightarrow> state" where
  "validateField f v s = s\<lparr>formErrors := (formErrors s)(f \<mapsto> field_error f v)\<rparr>"

text \<open>\<^verbatim>\<open>{ ...prev, [name]: value }\<close> for the seven input names.\<close>

fun set_field :: "field \<Rightarrow> string \<Rightarrow> form_data \<Rightarrow> form_data" where
  "set_field Name v d = d\<lparr>fd_name := Some v\<rparr>"
| "set_field Email v d = d\<lparr>fd_email := Some v\<rparr>"
| "set_field Phone v d = d\<lparr>fd_phone := Some v\<rparr>"
| "set_field Street v d = d\<lparr>fd_street := Some v\<rparr>"
| "set_field City v d = d\<lparr>fd_city := Some v\<rparr>"
| "set_field CompanyName v d = d\<lparr>fd_company_name := Some v\<rparr>"
| "set_field Website v d = d\<lparr>fd_website := Some v\<rparr>"

definition handleInputChange :: "field \<Rightarrow> string \<Rightarrow> state \<Rightarrow> state" where
  "handleInputChange f v s = validateField f v (s\<lparr>formData := set_field f v (formData s)\<rparr>)"

text \<open>The create button, the edit button of a row, and the cancel button of the form.\<close>

definition openCreate :: "state \<Rightarrow> state" where
  "openCreate s = s\<lparr>formMode := Some Create, formData := empty_form, formErrors := Map.empty\<rparr>"

definition flatten :: "user \<Rightarrow> form_data" where
  "flatten u =
     \<lparr>fd_id = Some (uid u), fd_name = name u, fd_email = email u, fd_phone = phone u,
      fd_username = Some (username u), fd_website = website u,
      fd_company_name = Some (company_name (company u)),
      fd_street = Some (street (address u)), fd_city = Some (city (address u))\<rparr>"

definition openEdit :: "user \<Rightarrow> state \<Rightarrow> state" where
  "openEdit u s =
     s\<lparr>formMode := Some Edit, currentUser := Some u, formData := flatten u,
       formErrors := Map.empty\<rparr>"

definition cancelForm :: "state \<Rightarrow> state" where
  "cancelForm s = s\<lparr>formMode := None, currentUser := None, formData := empty_form\<rparr>"

text \<open>
  \<^verbatim>\<open>Object.values(formErrors).some((error) => error)\<close>: some stored message is a
  non-empty string.
\<close>

definition has_error :: "(field \<Rightarrow> string option) \<Rightarrow> bool" where
  "has_error errs =
     list_ex (\<lambda>f. case errs f of None \<Rightarrow> False | Some e \<Rightarrow> e \<noteq> []) all_fields"

text \<open>\<^verbatim>\<open>x || y\<close> on an optional string: \<open>y\<close> when \<open>x\<close> is absent or empty.\<close>

definition or_else :: "string option \<Rightarrow> string \<Rightarrow> string" where
  "or_else x y = (case x of None \<Rightarrow> y | Some v \<Rightarrow> if v = [] then y else v)"

text \<open>\<^verbatim>\<open>{ ...a, ...b }\<close> at one key: the value of \<open>b\<close> when \<open>b\<close> has the key.\<close>

definition spread :: "'a option \<Rightarrow> 'a option \<Rightarrow> 'a option" where
  "spread a b = (case b of None \<Rightarrow> a | Some v \<Rightarrow> Some v)"

text \<open>
  The login handle: the optional chain \<^verbatim>\<open>formData.name?.toLowerCase().replace(...)\<close> is
  \<^verbatim>\<open>undefined\<close> as a whole when the draft has no name, and the template literal prints it
  as the word \<^verbatim>\<open>undefined\<close>.
\<close>

definition handle_of :: "string option \<Rightarrow> string" where
  "handle_of n =
     ''USER-'' @ (case n of None \<Rightarrow> ''undefined'' | Some v \<Rightarrow> replace_ws (toLowerCase v))"

definition newUser :: "user list \<Rightarrow> form_data \<Rightarrow> user" where
  "newUser us d =
     \<lparr>uid = js_add (Math_max (map uid us)) (Num 1),
      name = fd_name d, email = fd_email d, phone = fd_phone d,
      username = handle_of (fd_name d),
      website = fd_website d,
      company = \<lparr>company_name = or_else (fd_company_name d) []\<rparr>,
      address = \<lparr>street = or_else (fd_street d) [], city = or_else (fd_city d) []\<rparr>\<rparr>"

definition merge_user :: "user \<Rightarrow> form_data \<Rightarrow> user" where
  "merge_user u d =
     \<lparr>uid = (case fd_id d of None \<Rightarrow> uid u | Some i \<Rightarrow> i),
      name = spread (name u) (fd_name d),
      email = spread (email u) (fd_email d),
      phone = spread (phone u) (fd_phone d),
      username = (case fd_username d of None \<Rightarrow> username u | Some v \<Rightarrow> v),
      website = spread (website u) (fd_website d),
      company = (company u)\<lparr>company_name := or_else (fd_company_name d) (company_name (company u))\<rparr>,
      address = (address u)\<lparr>street := or_else (fd_street d) (street (address u)),
                            city := or_else (fd_city d) (city (address u))\<rparr>\<rparr>"

definition handleSubmit :: "state \<Rightarrow> state" where
  "handleSubmit s =
     (if has_error (formErrors s)
      then s\<lparr>alerts := alerts s @ [''Please correct the form errors before submitting'']\<rparr>
      else
        (case formMode s of
           Some Create \<Rightarrow>
             s\<lparr>users := users s @ [newUser (users s) (formData s)],
               alerts := alerts s @ [''User created successfully!'']\<rparr>
         | Some Edit \<Rightarrow>
             (case currentUser s of
                Some cu \<Rightarrow>
                  s\<lparr>users := map (\<lambda>u. if uid u = uid cu then merge_user u (formData s) else u)
                                 (users s),
                    alerts := alerts s @ [''User updated successfully!'']\<rparr>
              | None \<Rightarrow> s)
         | None \<Rightarrow> s)
        \<lparr>formMode := None, currentUser := None, formData := empty_form\<rparr>)"

text \<open>The deletion confirmor: the bin button of a row, and the two buttons of the dialog.\<close>

definition askDelete :: "jsnum \<Rightarrow> state \<Rightarrow> state" where
  "askDelete i s = s\<lparr>deleteConfirmation := Some i\<rparr>"

definition cancelDelete :: "state \<Rightarrow> state" where
  "cancelDelete s = s\<lparr>deleteConfirmation := None\<rparr>"

definition handleDelete :: "jsnum \<Rightarrow> state \<Rightarrow> state" where
  "handleDelete i s =
     s\<lparr>users := filter (\<lambda>u. uid u \<noteq> i) (users s), deleteConfirmation := None,
       alerts := alerts s @ [''User deleted successfully!'']\<rparr>"

text \<open>
  \<^verbatim>\<open>filteredUsers\<close>, computed on every render. \<^verbatim>\<open>user.name.toLowerCase()\<close> throws a
  \<^verbatim>\<open>TypeError\<close> at the first record whose name is \<^verbatim>\<open>undefined\<close>.
\<close>

fun filter_users :: "string \<Rightarrow> user list \<Rightarrow> js_error + user list" where
  "filter_users t [] = Inr []"
| "filter_users t (u # us) =
     (case name u of
        None \<Rightarrow> Inl TypeError
      | Some n \<Rightarrow>
          (case filter_users t us of
             Inl e \<Rightarrow> Inl e
           | Inr r \<Rightarrow> Inr (if includes_str (toLowerCase n) (toLowerCase t) then u # r else r)))"


section \<open>Notions of the specification\<close>

text \<open>
  The shape accepted by the phone expression, in words: an optional leading plus sign,
  then ten or more characters, each a digit, a white-space character or a hyphen.
\<close>

definition strip_plus :: "string \<Rightarrow> string" where
  "strip_plus v = (case v of [] \<Rightarrow> [] | c # r \<Rightarrow> if c = CHR ''+'' then r else v)"

definition phone_shape :: "string \<Rightarrow> bool" where
  "phone_shape v = (10 \<le> length (strip_plus v) \<and> list_all phone_atom (strip_plus v))"


text \<open>
  The shape \<open>local@domain.tld\<close>: three non-empty parts without white space and without
  \<open>@\<close>, the first two separated by \<open>@\<close>, the last two by a dot.
\<close>

definition email_shape :: "string \<Rightarrow> bool" where
  "email_shape v =
     (\<exists>x y z. v = x @ ''@'' @ y @ ''.'' @ z \<and> x \<noteq> [] \<and> y \<noteq> [] \<and> z \<noteq> [] \<and>
        list_all email_atom x \<and> list_all email_atom y \<and> list_all email_atom z)"




text \<open>\<open>m\<close> is the maximum of the identifiers \<open>xs\<close>.\<close>

definition is_max_of :: "jsnum \<Rightarrow> jsnum list \<Rightarrow> bool" where
  "is_max_of m xs = (m \<in> set xs \<and> list_all (\<lambda>x. js_le x m) xs)"

text \<open>
  The identifier rule as the specification words it: the record appended by a create
  commit carries the maximum of the identifiers already in the set, plus 1.
\<close>

definition assigns_max_plus_one :: "state \<Rightarrow> bool" where
  "assigns_max_plus_one s =
     (users (handleSubmit s) \<noteq> [] \<and>
      list_ex (\<lambda>m. is_max_of m (map uid (users s)) \<and>
                   (case m of
                      NegInf \<Rightarrow> False
                    | Num n \<Rightarrow> uid (last (users (handleSubmit s))) = Num (n + 1)))
        (map uid (users s)))"

text \<open>
  A safe identifier: an integer below \<open>2^53\<close> in absolute value
  (\<^verbatim>\<open>Number.isSafeInteger\<close>).
\<close>

definition safe_id :: "jsnum \<Rightarrow> bool" where
  "safe_id i = (case i of NegInf \<Rightarrow> False | Num n \<Rightarrow> \<bar>n\<bar> < 2 ^ 53)"

definition unique_ids :: "user list \<Rightarrow> bool" where
  "unique_ids us = distinct (map uid us)"

text \<open>An open session: create, or edit of a record.\<close>

definition session_open :: "state \<Rightarrow> bool" where
  "session_open s =
     (case formMode s of None \<Rightarrow> False | Some Create \<Rightarrow> True | Some Edit \<Rightarrow> currentUser s \<noteq> None)"

text \<open>A draft field left blank: absent, or the empty string.\<close>

definition blank :: "string option \<Rightarrow> bool" where
  "blank x = (x = None \<or> x = Some [])"

text \<open>
  Merging a draft field over a record field. A top-level field takes the draft's value
  when the draft has one. A nested company or address field keeps the record's value when
  the draft field is blank and takes the draft's value otherwise.
\<close>

definition merged_over :: "'a option \<Rightarrow> 'a option \<Rightarrow> 'a option \<Rightarrow> bool" where
  "merged_over draft old new = (case draft of None \<Rightarrow> new = old | Some v \<Rightarrow> new = Some v)"

definition kept_or_overwritten :: "string option \<Rightarrow> string \<Rightarrow> string \<Rightarrow> bool" where
  "kept_or_overwritten draft old new = (if blank draft then new = old else draft = Some new)"

section \<open>Scenarios\<close>

text \<open>A create session in which every required field is filled with a valid value.\<close>

definition create_jane :: "state \<Rightarrow> state" where
  "create_jane s =
     handleSubmit
       (handleInputChange City ''Rome''
         (handleInputChange Street ''1 Main St''
           (handleInputChange Phone ''1234567890''
             (handleInputChange Email ''a@b.co''
               (handleInputChange Name ''Jane Doe'' (openCreate s))))))"

definition sample_user :: "int \<Rightarrow> string \<Rightarrow> user" where
  "sample_user i n =
     \<lparr>uid = Num i, name = Some n, email = Some ''a@b.co'', phone = Some ''1234567890'',
      username = ''u'', website = Some ''example.com'',
      company = \<lparr>company_name = ''Acme''\<rparr>,
      address = \<lparr>street = ''1 Main St'', city = ''Rome''\<rparr>\<rparr>"

definition loaded :: "user list \<Rightarrow> state" where
  "loaded us = fetchUsers_ok us initial_state"

text \<open>Record sets with the identifiers 1, 3, 7 and 4, 5, 6, and the empty set.\<close>

definition users_1_3_7 :: "user list" where
  "users_1_3_7 = [sample_user 1 ''Ann'', sample_user 3 ''Bob'', sample_user 7 ''Cy'']"

definition users_4_5_6 :: "user list" where
  "users_4_5_6 = [sample_user 4 ''Dee'', sample_user 5 ''Eve'', sample_user 6 ''Fay'']"

definition no_users :: state where
  "no_users = fetchUsers_failed initial_state"

text \<open>A record set whose only identifier is \<open>2^53\<close>.\<close>

definition users_2_53 :: "user list" where
  "users_2_53 = [sample_user 9007199254740992 ''Big'']"

text \<open>
  An edit session on the record 3 of \<open>users_1_3_7\<close>: the company name is cleared and the
  city is replaced.
\<close>

definition edit_bob :: state where
  "edit_bob =
     handleInputChange City ''Paris''
       (handleInputChange CompanyName []
         (openEdit (sample_user 3 ''Bob'') (loaded users_1_3_7)))"

text \<open>A create session in which only the name was typed.\<close>

definition create_name_only :: state where
  "create_name_only = handleInputChange Name ''Jane Doe'' (openCreate (loaded users_1_3_7))"

text \<open>The deletion of record 5 of \<open>users_4_5_6\<close> is pending.\<close>

definition delete_5_pending :: state where
  "delete_5_pending = askDelete (Num 5) (loaded users_4_5_6)"



section \<open>The matcher decides the language\<close>

lemma nil_in_conc: "[] \<in> conc A B \<longleftrightarrow> [] \<in> A \<and> [] \<in> B"
  by (auto simp: conc_def)

lemma cons_in_conc:
  "c # w \<in> conc A B \<longleftrightarrow>
     (\<exists>u v. w = u @ v \<and> c # u \<in> A \<and> v \<in> B) \<or> ([] \<in> A \<and> c # w \<in> B)"
  by (auto simp: conc_def Cons_eq_append_conv)

lemma in_conc: "w \<in> conc A B \<longleftrightarrow> (\<exists>u v. w = u @ v \<and> u \<in> A \<and> v \<in> B)"
  by (auto simp: conc_def)

lemma star_cons_split:
  assumes "x \<in> star A" and "x = c # w"
  shows "\<exists>u v. w = u @ v \<and> c # u \<in> A \<and> v \<in> star A"
  using assms
proof (induction arbitrary: w rule: star.induct)
  case star_empty
  then show ?case by simp
next
  case (star_step u v)
  show ?case
  proof (cases u)
    case Nil
    with star_step show ?thesis by simp
  next
    case (Cons d u')
    with star_step.prems have "d = c" and "w = u' @ v" by simp_all
    with Cons star_step.hyps show ?thesis by blast
  qed
qed

lemma cons_in_star:
  "c # w \<in> star A \<longleftrightarrow> (\<exists>u v. w = u @ v \<and> c # u \<in> A \<and> v \<in> star A)"
proof
  assume "c # w \<in> star A"
  then show "\<exists>u v. w = u @ v \<and> c # u \<in> A \<and> v \<in> star A"
    by (rule star_cons_split) simp
next
  assume "\<exists>u v. w = u @ v \<and> c # u \<in> A \<and> v \<in> star A"
  then obtain u v where "w = u @ v" "c # u \<in> A" "v \<in> star A" by blast
  then show "c # w \<in> star A"
    using star_step [of "c # u" A v] by simp
qed

lemma nullable_lang: "nullable r \<longleftrightarrow> [] \<in> lang r"
  by (induction r) (auto simp: nil_in_conc intro: star_empty)

lemma deriv_lang: "w \<in> lang (deriv c r) \<longleftrightarrow> c # w \<in> lang r"
proof (induction r arbitrary: w)
  case (Seq r1 r2)
  have left: "w \<in> conc (lang (deriv c r1)) (lang r2) \<longleftrightarrow>
      (\<exists>u v. w = u @ v \<and> c # u \<in> lang r1 \<and> v \<in> lang r2)"
    by (simp add: in_conc Seq.IH)
  show ?case
    by (simp add: left cons_in_conc nullable_lang Seq.IH)
next
  case (Star r)
  have "w \<in> conc (lang (deriv c r)) (star (lang r)) \<longleftrightarrow>
      (\<exists>u v. w = u @ v \<and> c # u \<in> lang r \<and> v \<in> star (lang r))"
    by (simp add: in_conc Star.IH)
  then show ?case
    by (simp add: cons_in_star)
qed auto

lemma regex_test_lang: "regex_test r w \<longleftrightarrow> w \<in> lang r"
  by (induction w arbitrary: r) (simp_all add: nullable_lang deriv_lang)

lemma star_Cls: "star {[c] | c. p c} = {w. list_all p w}"
proof (rule set_eqI, rule iffI)
  fix w assume "w \<in> star {[c] | c. p c}"
  then show "w \<in> {w. list_all p w}"
    by (induction rule: star.induct) auto
next
  fix w assume "w \<in> {w. list_all p w}"
  then have "list_all p w" by simp
  then show "w \<in> star {[c] | c. p c}"
  proof (induction w)
    case Nil
    show ?case by (rule star_empty)
  next
    case (Cons c w)
    then have "[c] \<in> {[c] | c. p c}" and "w \<in> star {[c] | c. p c}" by simp_all
    then have "[c] @ w \<in> star {[c] | c. p c}" by (rule star_step)
    then show ?case by simp
  qed
qed

lemma lang_Chr: "lang (Chr c) = {[c]}"
  by (auto simp: Chr_def)

lemma conc_Cls: "w \<in> conc {[c] | c. p c} B \<longleftrightarrow> (\<exists>c r. w = c # r \<and> p c \<and> r \<in> B)"
proof
  assume "w \<in> conc {[c] | c. p c} B"
  then show "\<exists>c r. w = c # r \<and> p c \<and> r \<in> B"
    by (auto simp: in_conc)
next
  assume "\<exists>c r. w = c # r \<and> p c \<and> r \<in> B"
  then obtain c r where "w = [c] @ r" "p c" "r \<in> B" by auto
  then show "w \<in> conc {[c] | c. p c} B"
    unfolding in_conc by blast
qed

lemma conc_single: "w \<in> conc {[c]} B \<longleftrightarrow> (\<exists>r. w = c # r \<and> r \<in> B)"
  using conc_Cls [of w "\<lambda>x. x = c" B] by simp

lemma lang_Plus_Cls: "lang (Plus (Cls p)) = {w. w \<noteq> [] \<and> list_all p w}"
proof (rule set_eqI)
  fix w
  show "w \<in> lang (Plus (Cls p)) \<longleftrightarrow> w \<in> {w. w \<noteq> [] \<and> list_all p w}"
    by (cases w) (auto simp: Plus_def conc_Cls star_Cls)
qed

lemma lang_Exactly_Cls: "lang (Exactly n (Cls p)) = {w. length w = n \<and> list_all p w}"
proof (induction n)
  case 0
  show ?case by auto
next
  case (Suc n)
  show ?case
  proof (rule set_eqI)
    fix w
    show "w \<in> lang (Exactly (Suc n) (Cls p)) \<longleftrightarrow> w \<in> {w. length w = Suc n \<and> list_all p w}"
      by (cases w) (auto simp: Suc conc_Cls)
  qed
qed

lemma lang_AtLeast_Cls: "lang (AtLeast n (Cls p)) = {w. n \<le> length w \<and> list_all p w}"
proof (rule set_eqI, rule iffI)
  fix w assume "w \<in> lang (AtLeast n (Cls p))"
  then show "w \<in> {w. n \<le> length w \<and> list_all p w}"
    by (auto simp: AtLeast_def in_conc lang_Exactly_Cls star_Cls)
next
  fix w assume "w \<in> {w. n \<le> length w \<and> list_all p w}"
  then have "w = take n w @ drop n w" "length (take n w) = n"
    "list_all p (take n w)" "list_all p (drop n w)"
    by (auto simp: list_all_iff dest: in_set_takeD in_set_dropD)
  then show "w \<in> lang (AtLeast n (Cls p))"
    unfolding AtLeast_def lang.simps in_conc lang_Exactly_Cls star_Cls by blast
qed

lemma email_re_shape: "regex_test email_re v \<longleftrightarrow> email_shape v"
proof
  assume "regex_test email_re v"
  then have "v \<in> lang email_re" by (simp add: regex_test_lang)
  then obtain x r1 where 1: "v = x @ r1" "x \<noteq> []" "list_all email_atom x"
      and "r1 \<in> conc {''@''} (conc (lang (Plus (Cls email_atom)))
              (conc {''.''} (lang (Plus (Cls email_atom)))))"
    unfolding email_re_def lang.simps(4) lang_Chr
    by (auto simp: in_conc [of v] lang_Plus_Cls)
  then obtain r2 where 2: "r1 = CHR ''@'' # r2"
      and "r2 \<in> conc (lang (Plus (Cls email_atom))) (conc {''.''} (lang (Plus (Cls email_atom))))"
    by (auto simp: conc_single)
  then obtain y r3 where 3: "r2 = y @ r3" "y \<noteq> []" "list_all email_atom y"
      and "r3 \<in> conc {''.''} (lang (Plus (Cls email_atom)))"
    by (auto simp: in_conc [of r2] lang_Plus_Cls)
  then obtain z where 4: "r3 = CHR ''.'' # z" "z \<noteq> []" "list_all email_atom z"
    by (auto simp: conc_single lang_Plus_Cls)
  from 1 2 3 4 show "email_shape v"
    unfolding email_shape_def by auto
next
  assume "email_shape v"
  then obtain x y z where v: "v = x @ ''@'' @ y @ ''.'' @ z"
      and x: "x \<in> lang (Plus (Cls email_atom))"
      and y: "y \<in> lang (Plus (Cls email_atom))"
      and z: "z \<in> lang (Plus (Cls email_atom))"
    unfolding email_shape_def lang_Plus_Cls by auto
  from z have "''.'' @ z \<in> conc {''.''} (lang (Plus (Cls email_atom)))"
    unfolding in_conc by blast
  with y have "y @ ''.'' @ z \<in> conc (lang (Plus (Cls email_atom)))
      (conc {''.''} (lang (Plus (Cls email_atom))))"
    unfolding in_conc [of "y @ ''.'' @ z"] by blast
  then have "''@'' @ y @ ''.'' @ z \<in> conc {''@''} (conc (lang (Plus (Cls email_atom)))
      (conc {''.''} (lang (Plus (Cls email_atom)))))"
    unfolding in_conc [of "''@'' @ y @ ''.'' @ z"] by blast
  with x have "v \<in> lang email_re"
    unfolding v email_re_def lang.simps(4) lang_Chr in_conc [of "x @ ''@'' @ y @ ''.'' @ z"]
    by blast
  then show "regex_test email_re v" by (simp add: regex_test_lang)
qed

lemma not_phone_atom_plus: "\<not> phone_atom (CHR ''+'')"
  by (simp add: phone_atom_def is_digit_def is_space_def)

lemma conc_Opt_Chr:
  "w \<in> conc (lang (Opt (Chr c))) B \<longleftrightarrow> w \<in> B \<or> (\<exists>r. w = c # r \<and> r \<in> B)"
proof -
  have "conc ({[]} \<union> {[c]}) B = conc {[]} B \<union> conc {[c]} B"
    unfolding conc_def by blast
  moreover have "conc {[]} B = B"
    unfolding conc_def by simp
  ultimately have "conc (lang (Opt (Chr c))) B = B \<union> conc {[c]} B"
    by (simp add: Opt_def lang_Chr)
  then show ?thesis by (simp add: conc_single)
qed

lemma phone_re_shape: "regex_test phone_re v \<longleftrightarrow> phone_shape v"
proof -
  have "v \<in> lang phone_re \<longleftrightarrow>
      (10 \<le> length v \<and> list_all phone_atom v) \<or>
      (\<exists>b. v = CHR ''+'' # b \<and> 10 \<le> length b \<and> list_all phone_atom b)"
    unfolding phone_re_def lang.simps(4) conc_Opt_Chr lang_AtLeast_Cls by simp
  also have "\<dots> \<longleftrightarrow> phone_shape v"
    using not_phone_atom_plus by (cases v) (auto simp: phone_shape_def strip_plus_def)
  finally show ?thesis by (simp add: regex_test_lang)
qed


section \<open>Field validator\<close>

lemma field_error_Phone:
  "field_error Phone v = (if phone_shape v then [] else ''Invalid phone number'')"
  by (simp add: phone_re_shape)

lemma field_error_Email:
  "field_error Email v = (if email_shape v then [] else ''Invalid email format'')"
  by (simp add: email_re_shape)

lemma email_shape_a_b_co: "email_shape ''a@b.co''"
proof -
  have "''a@b.co'' = ''a'' @ ''@'' @ ''b'' @ ''.'' @ ''co''" by simp
  moreover have "list_all email_atom ''a''" "list_all email_atom ''b''" "list_all email_atom ''co''"
    by (simp_all add: email_atom_def is_space_def)
  ultimately show ?thesis
    unfolding email_shape_def by blast
qed

lemma not_email_shape_without_at: "CHR ''@'' \<notin> set v \<Longrightarrow> \<not> email_shape v"
  by (auto simp: email_shape_def)






section \<open>Identifiers and the session controller\<close>

declare bit_length.simps [simp del]

lemma round_double_exact: "\<bar>n\<bar> \<le> 2 ^ 53 \<Longrightarrow> round_double n = n"
  by (simp add: round_double_def)

lemma bit_length_above_2_53: "bit_length 9007199254740993 = 54"
  by (simp add: bit_length.simps)

lemma round_double_above_2_53: "round_double 9007199254740993 = 9007199254740992"
  by (simp add: round_double_def bit_length_above_2_53)

lemma safe_id_Num: "safe_id i \<Longrightarrow> \<exists>n. i = Num n \<and> \<bar>n\<bar> < 2 ^ 53"
  by (cases i) (simp_all add: safe_id_def)

lemma js_add_one_safe: "\<bar>n\<bar> < 2 ^ 53 \<Longrightarrow> js_add (Num n) (Num 1) = Num (n + 1)"
  by (simp add: round_double_exact)

lemma js_le_refl: "js_le x x"
  by (cases x) simp_all

lemma js_le_trans: "js_le x y \<Longrightarrow> js_le y z \<Longrightarrow> js_le x z"
  by (cases x; cases y; cases z) simp_all

lemma js_le_max2: "js_le a (js_max2 a b)" "js_le b (js_max2 a b)"
  by (cases a; cases b; simp)+

lemma js_max2_cases: "js_max2 a b = a \<or> js_max2 a b = b"
  by (cases a; cases b) (simp_all add: max_def)

lemma foldl_max_bounds:
  "js_le a (foldl js_max2 a xs) \<and> list_all (\<lambda>x. js_le x (foldl js_max2 a xs)) xs \<and>
   (foldl js_max2 a xs = a \<or> foldl js_max2 a xs \<in> set xs)"
proof (induction xs arbitrary: a)
  case Nil
  show ?case by (simp add: js_le_refl)
next
  case (Cons x xs)
  define r where "r = foldl js_max2 (js_max2 a x) xs"
  have IH: "js_le (js_max2 a x) r \<and> list_all (\<lambda>y. js_le y r) xs \<and>
      (r = js_max2 a x \<or> r \<in> set xs)"
    unfolding r_def by (rule Cons.IH)
  from IH have 1: "js_le (js_max2 a x) r" by (rule conjunct1)
  have a: "js_le a r" by (rule js_le_trans [OF js_le_max2(1) 1])
  have x: "js_le x r" by (rule js_le_trans [OF js_le_max2(2) 1])
  have m: "r = a \<or> r = x \<or> r \<in> set xs"
    using IH js_max2_cases [of a x] by auto
  have "foldl js_max2 a (x # xs) = r" by (simp add: r_def)
  with a x m IH show ?case by auto
qed

lemma js_le_NegInf: "js_le x NegInf \<longleftrightarrow> x = NegInf"
  by (cases x) simp_all

lemma Math_max_is_max:
  assumes "xs \<noteq> []"
  shows "is_max_of (Math_max xs) xs"
proof -
  let ?m = "Math_max xs"
  have all: "list_all (\<lambda>x. js_le x ?m) xs" and mem: "?m = NegInf \<or> ?m \<in> set xs"
    using foldl_max_bounds [of NegInf xs] by (simp_all add: Math_max_def)
  have "?m \<in> set xs"
  proof (cases "?m = NegInf")
    case True
    from assms obtain x where x: "x \<in> set xs" by (cases xs) auto
    with all have "js_le x ?m" by (simp add: list_all_iff)
    with True x show ?thesis by (simp add: js_le_NegInf)
  next
    case False
    with mem show ?thesis by simp
  qed
  with all show ?thesis by (simp add: is_max_of_def)
qed

lemma Math_max_Nil: "Math_max [] = NegInf"
  by (simp add: Math_max_def)

lemma handleSubmit_create:
  assumes "formMode s = Some Create" and "\<not> has_error (formErrors s)"
  shows "handleSubmit s =
     s\<lparr>users := users s @ [newUser (users s) (formData s)],
       alerts := alerts s @ [''User created successfully!''],
       formMode := None, currentUser := None, formData := empty_form\<rparr>"
  using assms by (simp add: handleSubmit_def)

lemma handleSubmit_edit:
  assumes "formMode s = Some Edit" and "currentUser s = Some cu" and "\<not> has_error (formErrors s)"
  shows "handleSubmit s =
     s\<lparr>users := map (\<lambda>u. if uid u = uid cu then merge_user u (formData s) else u) (users s),
       alerts := alerts s @ [''User updated successfully!''],
       formMode := None, currentUser := None, formData := empty_form\<rparr>"
  using assms by (simp add: handleSubmit_def)

lemma handleSubmit_rejected:
  assumes "has_error (formErrors s)"
  shows "handleSubmit s =
     s\<lparr>alerts := alerts s @ [''Please correct the form errors before submitting'']\<rparr>"
  using assms by (simp add: handleSubmit_def)

lemma has_error_iff: "has_error errs \<longleftrightarrow> (\<exists>f e. errs f = Some e \<and> e \<noteq> [])"
proof
  assume "has_error errs"
  then show "\<exists>f e. errs f = Some e \<and> e \<noteq> []"
    by (auto simp: has_error_def list_ex_iff split: option.splits)
next
  assume "\<exists>f e. errs f = Some e \<and> e \<noteq> []"
  then obtain f e where fe: "errs f = Some e" "e \<noteq> []" by blast
  have "f \<in> set all_fields" by (cases f) (simp_all add: all_fields_def)
  with fe show "has_error errs"
    unfolding has_error_def list_ex_iff by (intro bexI [of _ f]) simp_all
qed

lemma not_has_error_empty: "\<not> has_error Map.empty"
  by (simp add: has_error_iff)

lemma openCreate_simps:
  "formMode (openCreate s) = Some Create" "formErrors (openCreate s) = Map.empty"
  "formData (openCreate s) = empty_form" "users (openCreate s) = users s"
  by (simp_all add: openCreate_def)

text \<open>
  Claim C1, as amended. For every non-empty record set whose identifiers are all integers
  below \<open>2^53\<close> in absolute value, and every valid create-session submit, the identifier
  of the appended record is the maximum of the identifiers already in the set, plus 1;
  with the identifiers 1, 3, 7 it is 8.
\<close>

theorem create_assigns_max_plus_one:
  assumes "formMode s = Some Create" and "\<not> has_error (formErrors s)" and "users s \<noteq> []"
    and "list_all safe_id (map uid (users s))"
  shows "assigns_max_plus_one s"
proof -
  let ?ids = "map uid (users s)"
  from assms(3) have top: "is_max_of (Math_max ?ids) ?ids"
    by (intro Math_max_is_max) simp
  then have mem: "Math_max ?ids \<in> set ?ids"
    by (simp add: is_max_of_def)
  with assms(4) have "safe_id (Math_max ?ids)"
    unfolding list_all_iff by blast
  then obtain k where k: "Math_max ?ids = Num k" and small: "\<bar>k\<bar> < 2 ^ 53"
    using safe_id_Num by blast
  have "uid (last (users (handleSubmit s))) = js_add (Math_max ?ids) (Num 1)"
    by (simp add: handleSubmit_create [OF assms(1,2)] newUser_def)
  then have new: "uid (last (users (handleSubmit s))) = Num (k + 1)"
    by (simp only: k js_add_one_safe [OF small])
  have "users (handleSubmit s) \<noteq> []"
    by (simp add: handleSubmit_create [OF assms(1,2)])
  moreover from top new k
  have "is_max_of (Num k) ?ids \<and>
      (case Num k of NegInf \<Rightarrow> False
       | Num n \<Rightarrow> uid (last (users (handleSubmit s))) = Num (n + 1))"
    by simp
  moreover from mem k have "Num k \<in> set ?ids" by simp
  ultimately show ?thesis
    unfolding assigns_max_plus_one_def list_ex_iff by blast
qed

theorem create_assigns_max_plus_one_witness:
  "formMode (openCreate (loaded users_1_3_7)) = Some Create \<and>
   \<not> has_error (formErrors (openCreate (loaded users_1_3_7))) \<and>
   users (openCreate (loaded users_1_3_7)) \<noteq> [] \<and>
   list_all safe_id (map uid (users (openCreate (loaded users_1_3_7)))) \<and>
   assigns_max_plus_one (openCreate (loaded users_1_3_7)) \<and>
   map uid (users (handleSubmit (openCreate (loaded users_1_3_7)))) =
     [Num 1, Num 3, Num 7, Num 8]"
proof -
  let ?s = "openCreate (loaded users_1_3_7)"
  have m: "formMode ?s = Some Create" and e: "\<not> has_error (formErrors ?s)"
    by (simp_all add: openCreate_simps not_has_error_empty)
  have u: "users ?s = users_1_3_7"
    by (simp add: openCreate_simps loaded_def fetchUsers_ok_def)
  then have n: "users ?s \<noteq> []" by (simp add: users_1_3_7_def)
  have safe: "list_all safe_id (map uid (users ?s))"
    unfolding u by (simp add: users_1_3_7_def sample_user_def safe_id_def)
  have "users (handleSubmit ?s) = users ?s @ [newUser (users ?s) (formData ?s)]"
    by (simp add: handleSubmit_create [OF m e])
  then have "map uid (users (handleSubmit ?s)) = [Num 1, Num 3, Num 7, Num 8]"
    unfolding u
    by (simp add: newUser_def Math_max_def users_1_3_7_def sample_user_def round_double_exact)
  with m e n safe create_assigns_max_plus_one [OF m e n safe] show ?thesis by blast
qed

text \<open>
  Claim C1 as stated fails. With the single identifier \<open>2^53\<close> in the set, the sum
  \<open>2^53 + 1\<close> is no double and rounds back to \<open>2^53\<close>: the appended record gets the
  maximum itself, not the maximum plus 1. On the empty record set no identifier is there
  to be the maximum, and the appended record gets \<^verbatim>\<open>Math.max() + 1\<close>, which is
  \<^verbatim>\<open>-Infinity\<close>.
\<close>

theorem create_id_not_max_plus_one:
  "formMode (openCreate (loaded users_2_53)) = Some Create \<and>
   \<not> has_error (formErrors (openCreate (loaded users_2_53))) \<and>
   map uid (users (openCreate (loaded users_2_53))) = [Num 9007199254740992] \<and>
   map uid (users (handleSubmit (openCreate (loaded users_2_53)))) =
     [Num 9007199254740992, Num 9007199254740992] \<and>
   \<not> assigns_max_plus_one (openCreate (loaded users_2_53)) \<and>
   formMode (openCreate no_users) = Some Create \<and>
   \<not> has_error (formErrors (openCreate no_users)) \<and>
   users (openCreate no_users) = [] \<and>
   map uid (users (handleSubmit (openCreate no_users))) = [NegInf] \<and>
   \<not> assigns_max_plus_one (openCreate no_users)"
proof -
  let ?b = "openCreate (loaded users_2_53)"
  have bm: "formMode ?b = Some Create" and be: "\<not> has_error (formErrors ?b)"
    by (simp_all add: openCreate_simps not_has_error_empty)
  have bu: "users ?b = users_2_53"
    by (simp add: openCreate_simps loaded_def fetchUsers_ok_def)
  have bids: "map uid users_2_53 = [Num 9007199254740992]"
    by (simp add: users_2_53_def sample_user_def)
  have "users (handleSubmit ?b) = users ?b @ [newUser (users ?b) (formData ?b)]"
    by (simp add: handleSubmit_create [OF bm be])
  then have "map uid (users (handleSubmit ?b)) =
      map uid users_2_53 @ [js_add (Math_max (map uid users_2_53)) (Num 1)]"
    unfolding bu by (simp add: newUser_def)
  then have bnew: "map uid (users (handleSubmit ?b)) =
      [Num 9007199254740992, Num 9007199254740992]"
    unfolding bids by (simp add: Math_max_def round_double_above_2_53)
  then have "uid (last (users (handleSubmit ?b))) = Num 9007199254740992"
    by (cases "users (handleSubmit ?b)" rule: rev_cases) auto
  then have bno: "\<not> assigns_max_plus_one ?b"
    by (simp add: assigns_max_plus_one_def bu bids)
  let ?s = "openCreate no_users"
  have m: "formMode ?s = Some Create" and e: "\<not> has_error (formErrors ?s)"
    by (simp_all add: openCreate_simps not_has_error_empty)
  have u: "users ?s = []"
    by (simp add: openCreate_simps no_users_def fetchUsers_failed_def initial_state_def)
  have "users (handleSubmit ?s) = users ?s @ [newUser (users ?s) (formData ?s)]"
    by (simp add: handleSubmit_create [OF m e])
  then have new: "map uid (users (handleSubmit ?s)) = [NegInf]"
    unfolding u by (simp add: newUser_def Math_max_def)
  have no: "\<not> assigns_max_plus_one ?s"
    by (simp add: assigns_max_plus_one_def u)
  from bm be bu bids bnew bno m e u new no show ?thesis by simp
qed


section \<open>Uniqueness of identifiers\<close>

lemma field_error_a_b_co: "field_error Email ''a@b.co'' = []"
  by (simp only: field_error_Email email_shape_a_b_co if_True)

lemma field_error_ten_digits: "field_error Phone ''1234567890'' = []"
proof -
  have "phone_shape ''1234567890''"
    by (simp add: phone_shape_def strip_plus_def phone_atom_def is_digit_def)
  then show ?thesis by (simp only: field_error_Phone if_True)
qed

lemma create_jane_users:
  "users (create_jane s) =
     users s @ [newUser (users s)
       (empty_form\<lparr>fd_name := Some ''Jane Doe'', fd_email := Some ''a@b.co'',
          fd_phone := Some ''1234567890'', fd_street := Some ''1 Main St'',
          fd_city := Some ''Rome''\<rparr>)]"
proof -
  let ?s = "handleInputChange City ''Rome''
         (handleInputChange Street ''1 Main St''
           (handleInputChange Phone ''1234567890''
             (handleInputChange Email ''a@b.co''
               (handleInputChange Name ''Jane Doe'' (openCreate s)))))"
  have m: "formMode ?s = Some Create"
    by (simp add: handleInputChange_def validateField_def openCreate_def)
  have "formErrors ?s = [Name \<mapsto> [], Email \<mapsto> [], Phone \<mapsto> [], Street \<mapsto> [], City \<mapsto> []]"
    by (simp add: handleInputChange_def validateField_def openCreate_def
        field_error_a_b_co field_error_ten_digits del: field_error.simps(2,3))
  then have e: "\<not> has_error (formErrors ?s)"
    by (simp add: has_error_def all_fields_def)
  have u: "users ?s = users s"
    by (simp add: handleInputChange_def validateField_def openCreate_def)
  have d: "formData ?s = empty_form\<lparr>fd_name := Some ''Jane Doe'', fd_email := Some ''a@b.co'',
          fd_phone := Some ''1234567890'', fd_street := Some ''1 Main St'',
          fd_city := Some ''Rome''\<rparr>"
    by (simp add: handleInputChange_def validateField_def openCreate_def)
  have "users (handleSubmit ?s) = users ?s @ [newUser (users ?s) (formData ?s)]"
    by (simp add: handleSubmit_create [OF m e])
  then show ?thesis
    unfolding u d create_jane_def .
qed

lemma uid_newUser: "uid (newUser us d) = js_add (Math_max (map uid us)) (Num 1)"
  by (simp add: newUser_def)

text \<open>
  Where the invariant is kept: by a confirmed deletion, by an edit commit (the draft of an
  edit session carries the identifier of the edited record, and no input changes it), and
  by a create commit on a non-empty record set whose identifiers are integers below \<open>2^53\<close>
  in absolute value.
\<close>

lemma handleDelete_unique_ids:
  "unique_ids (users s) \<Longrightarrow> unique_ids (users (handleDelete i s))"
  by (simp add: unique_ids_def handleDelete_def distinct_map_filter)

lemma uid_merge_user: "fd_id d = Some i \<Longrightarrow> uid (merge_user u d) = i"
  by (simp add: merge_user_def)

lemma edit_commit_keeps_ids:
  assumes "formMode s = Some Edit" and "currentUser s = Some cu"
    and "fd_id (formData s) = Some (uid cu)"
  shows "map uid (users (handleSubmit s)) = map uid (users s)"
proof (cases "has_error (formErrors s)")
  case True
  then show ?thesis by (simp add: handleSubmit_rejected)
next
  case False
  have "map uid (map (\<lambda>u. if uid u = uid cu then merge_user u (formData s) else u) (users s))
      = map uid (users s)"
    by (induction "users s") (simp_all add: uid_merge_user [OF assms(3)])
  then show ?thesis by (simp add: handleSubmit_edit [OF assms(1,2) False])
qed

lemma openEdit_draft_id:
  "formMode (openEdit u s) = Some Edit \<and> currentUser (openEdit u s) = Some u \<and>
   fd_id (formData (openEdit u s)) = Some (uid u)"
  by (simp add: openEdit_def flatten_def)

lemma handleInputChange_keeps_id:
  "fd_id (formData (handleInputChange f v s)) = fd_id (formData s) \<and>
   formMode (handleInputChange f v s) = formMode s \<and>
   currentUser (handleInputChange f v s) = currentUser s \<and>
   users (handleInputChange f v s) = users s"
  by (cases f) (simp_all add: handleInputChange_def validateField_def)

lemma create_commit_unique_ids:
  assumes "formMode s = Some Create" and "\<not> has_error (formErrors s)"
    and "unique_ids (users s)" and "users s \<noteq> []"
    and "list_all safe_id (map uid (users s))"
  shows "unique_ids (users (handleSubmit s))"
proof -
  let ?ids = "map uid (users s)"
  from assms(4) have ne: "?ids \<noteq> []" by simp
  from Math_max_is_max [OF ne]
  have mem: "Math_max ?ids \<in> set ?ids" and all: "list_all (\<lambda>x. js_le x (Math_max ?ids)) ?ids"
    by (simp_all add: is_max_of_def)
  from mem assms(5) have "safe_id (Math_max ?ids)"
    unfolding list_all_iff by blast
  then obtain k where k: "Math_max ?ids = Num k" and small: "\<bar>k\<bar> < 2 ^ 53"
    using safe_id_Num by blast
  have new: "js_add (Math_max ?ids) (Num 1) = Num (k + 1)"
    by (simp only: k js_add_one_safe [OF small])
  have "Num (k + 1) \<notin> set ?ids"
  proof
    assume "Num (k + 1) \<in> set ?ids"
    with all have "js_le (Num (k + 1)) (Math_max ?ids)"
      unfolding list_all_iff by blast
    with k show False by simp
  qed
  with assms(3) show ?thesis
    by (simp add: handleSubmit_create [OF assms(1,2)] unique_ids_def uid_newUser new)
qed

text \<open>
  Claim C2: every record has a unique identifier, and create commit, edit commit and
  confirmed deletion keep it so in every reachable state, the empty record set included.
  The create commit does not: after a failed load the record set is empty, a first valid
  create commit appends a record with the identifier \<^verbatim>\<open>-Infinity\<close>, and a second one
  computes \<^verbatim>\<open>Math.max(-Infinity) + 1\<close>, which is \<^verbatim>\<open>-Infinity\<close> again.
\<close>

theorem second_create_on_empty_set_duplicates_id:
  "users no_users = [] \<and>
   unique_ids (users (create_jane no_users)) \<and>
   map uid (users (create_jane (create_jane no_users))) = [NegInf, NegInf] \<and>
   \<not> unique_ids (users (create_jane (create_jane no_users)))"
proof -
  have 0: "users no_users = []"
    by (simp add: no_users_def fetchUsers_failed_def initial_state_def)
  have 1: "map uid (users (create_jane no_users)) = [NegInf]"
    by (simp add: create_jane_users 0 uid_newUser Math_max_def)
  have 2: "map uid (users (create_jane (create_jane no_users))) = [NegInf, NegInf]"
    by (simp add: create_jane_users [of "create_jane no_users"] 1 uid_newUser Math_max_def)
  from 0 1 2 show ?thesis by (simp add: unique_ids_def)
qed


section \<open>Submitting the form\<close>

lemma field_error_short_name: "field_error Name ''Al'' = ''Name must be at least 3 characters long''"
  by simp

text \<open>
  Claim C4. In every open create or edit session, if the error map holds a non-empty
  message, submitting is rejected: the session stays open, and the record set, the draft
  and the edited record are unchanged (a notification is shown). If it holds none, the
  submit commits (the new record is appended, or the draft is merged over the records
  with the identifier of the edited one) and closes the session.
\<close>

theorem submit_guard:
  assumes "session_open s"
  shows "((\<exists>f e. formErrors s f = Some e \<and> e \<noteq> []) \<longrightarrow>
            formMode (handleSubmit s) = formMode s \<and> users (handleSubmit s) = users s \<and>
            formData (handleSubmit s) = formData s \<and> currentUser (handleSubmit s) = currentUser s \<and>
            alerts (handleSubmit s) = alerts s @ [''Please correct the form errors before submitting'']) \<and>
         (\<not> (\<exists>f e. formErrors s f = Some e \<and> e \<noteq> []) \<longrightarrow>
            formMode (handleSubmit s) = None \<and> currentUser (handleSubmit s) = None \<and>
            formData (handleSubmit s) = empty_form \<and>
            (formMode s = Some Create \<longrightarrow>
               users (handleSubmit s) = users s @ [newUser (users s) (formData s)]) \<and>
            (\<forall>cu. formMode s = Some Edit \<and> currentUser s = Some cu \<longrightarrow>
               users (handleSubmit s) =
                 map (\<lambda>u. if uid u = uid cu then merge_user u (formData s) else u) (users s)))"
proof (cases "has_error (formErrors s)")
  case True
  then show ?thesis
    by (simp add: handleSubmit_rejected has_error_iff [symmetric])
next
  case False
  from assms have "formMode s = Some Create \<or> (\<exists>cu. formMode s = Some Edit \<and> currentUser s = Some cu)"
    by (auto simp: session_open_def split: option.splits form_mode.splits)
  then show ?thesis
  proof
    assume m: "formMode s = Some Create"
    show ?thesis
      using False by (simp add: handleSubmit_create [OF m False] has_error_iff [symmetric] m)
  next
    assume "\<exists>cu. formMode s = Some Edit \<and> currentUser s = Some cu"
    then obtain cu where m: "formMode s = Some Edit" and c: "currentUser s = Some cu" by blast
    show ?thesis
      using False by (simp add: handleSubmit_edit [OF m c False] has_error_iff [symmetric] m c)
  qed
qed

theorem submit_guard_witness:
  "session_open (handleInputChange Name ''Al'' (openCreate (loaded users_1_3_7))) \<and>
   formErrors (handleInputChange Name ''Al'' (openCreate (loaded users_1_3_7))) Name =
     Some ''Name must be at least 3 characters long'' \<and>
   formMode (handleSubmit (handleInputChange Name ''Al'' (openCreate (loaded users_1_3_7)))) = Some Create \<and>
   users (handleSubmit (handleInputChange Name ''Al'' (openCreate (loaded users_1_3_7)))) = users_1_3_7 \<and>
   session_open (openCreate (loaded users_1_3_7)) \<and>
   \<not> has_error (formErrors (openCreate (loaded users_1_3_7))) \<and>
   formMode (handleSubmit (openCreate (loaded users_1_3_7))) = None \<and>
   length (users (handleSubmit (openCreate (loaded users_1_3_7)))) = 4"
proof -
  let ?a = "handleInputChange Name ''Al'' (openCreate (loaded users_1_3_7))"
  let ?b = "openCreate (loaded users_1_3_7)"
  have a1: "session_open ?a"
    by (simp add: session_open_def handleInputChange_def validateField_def openCreate_def)
  have a2: "formErrors ?a Name = Some ''Name must be at least 3 characters long''"
    by (simp add: handleInputChange_def validateField_def)
  then have a3: "\<exists>f e. formErrors ?a f = Some e \<and> e \<noteq> []" by blast
  have a4: "formMode ?a = Some Create" "users ?a = users_1_3_7"
    by (simp_all add: handleInputChange_def validateField_def openCreate_def loaded_def fetchUsers_ok_def)
  have b1: "session_open ?b"
    by (simp add: session_open_def openCreate_def)
  have b2: "\<not> has_error (formErrors ?b)"
    by (simp add: openCreate_simps not_has_error_empty)
  then have b3: "\<not> (\<exists>f e. formErrors ?b f = Some e \<and> e \<noteq> [])"
    by (simp add: has_error_iff)
  have b4: "formMode ?b = Some Create" "users ?b = users_1_3_7"
    by (simp_all add: openCreate_def loaded_def fetchUsers_ok_def)
  from submit_guard [OF a1] a3 a4
  have "formMode (handleSubmit ?a) = Some Create \<and> users (handleSubmit ?a) = users_1_3_7"
    by simp
  moreover from submit_guard [OF b1] b3 b4
  have "formMode (handleSubmit ?b) = None \<and> length (users (handleSubmit ?b)) = 4"
    by (simp add: users_1_3_7_def)
  ultimately show ?thesis using a1 a2 b1 b2 by blast
qed

text \<open>
  Claim C5. The submit guard looks at the error map only. A create session in which no
  field was edited has an empty error map, so the submit is not rejected, although the
  validator would report an error for the empty value of each of name, email, phone,
  street and city; the appended record has no name, no email and no phone, and an empty
  street and city.
\<close>

theorem untouched_create_commits:
  "\<not> has_error (formErrors (openCreate s)) \<and>
   formData (openCreate s) = empty_form \<and>
   formMode (handleSubmit (openCreate s)) = None \<and>
   users (handleSubmit (openCreate s)) = users s @ [newUser (users s) empty_form] \<and>
   name (newUser (users s) empty_form) = None \<and>
   email (newUser (users s) empty_form) = None \<and>
   phone (newUser (users s) empty_form) = None \<and>
   street (address (newUser (users s) empty_form)) = [] \<and>
   city (address (newUser (users s) empty_form)) = [] \<and>
   list_all (\<lambda>f. field_error f [] \<noteq> []) [Name, Email, Phone, Street, City]"
proof -
  have m: "formMode (openCreate s) = Some Create"
    and e: "\<not> has_error (formErrors (openCreate s))"
    by (simp_all add: openCreate_simps not_has_error_empty)
  have "handleSubmit (openCreate s) =
      (openCreate s)\<lparr>users := users s @ [newUser (users s) empty_form],
        alerts := alerts (openCreate s) @ [''User created successfully!''],
        formMode := None, currentUser := None, formData := empty_form\<rparr>"
    by (simp add: handleSubmit_create [OF m e] openCreate_simps)
  then have "formMode (handleSubmit (openCreate s)) = None"
    and "users (handleSubmit (openCreate s)) = users s @ [newUser (users s) empty_form]"
    by simp_all
  moreover have "name (newUser (users s) empty_form) = None"
    "email (newUser (users s) empty_form) = None"
    "phone (newUser (users s) empty_form) = None"
    "street (address (newUser (users s) empty_form)) = []"
    "city (address (newUser (users s) empty_form)) = []"
    by (simp_all add: newUser_def empty_form_def or_else_def)
  moreover have "list_all (\<lambda>f. field_error f [] \<noteq> []) [Name, Email, Phone, Street, City]"
    by (simp add: field_error_Email field_error_Phone not_email_shape_without_at
        phone_shape_def strip_plus_def del: field_error.simps(2,3))
  ultimately show ?thesis using e by (simp add: openCreate_simps)
qed


section \<open>Edit commit\<close>

lemma or_else_kept_or_overwritten: "kept_or_overwritten x y (or_else x y)"
  by (cases x) (auto simp: kept_or_overwritten_def or_else_def blank_def)

lemma spread_merged_over: "merged_over d old (spread old d)"
  by (cases d) (simp_all add: merged_over_def spread_def)

lemma merge_user_fields:
  "kept_or_overwritten (fd_company_name d) (company_name (company u))
     (company_name (company (merge_user u d)))"
  "kept_or_overwritten (fd_street d) (street (address u)) (street (address (merge_user u d)))"
  "kept_or_overwritten (fd_city d) (city (address u)) (city (address (merge_user u d)))"
  "merged_over (fd_name d) (name u) (name (merge_user u d))"
  "merged_over (fd_email d) (email u) (email (merge_user u d))"
  "merged_over (fd_phone d) (phone u) (phone (merge_user u d))"
  "merged_over (fd_website d) (website u) (website (merge_user u d))"
  by (simp_all add: merge_user_def or_else_kept_or_overwritten spread_merged_over)

lemma edit_bob_state:
  "formMode edit_bob = Some Edit" "currentUser edit_bob = Some (sample_user 3 ''Bob'')"
  "\<not> has_error (formErrors edit_bob)" "users edit_bob = users_1_3_7"
  "fd_company_name (formData edit_bob) = Some []" "fd_city (formData edit_bob) = Some ''Paris''"
  "fd_street (formData edit_bob) = Some ''1 Main St''"
  by (simp_all add: edit_bob_def handleInputChange_def validateField_def openEdit_def
      flatten_def loaded_def fetchUsers_ok_def has_error_def all_fields_def sample_user_def)

text \<open>
  Claim C6. For every valid edit-session submit, the record set keeps its length and
  order; every record whose identifier differs from that of the session's record is
  unchanged; in every record with that identifier the company name, the street and the
  city keep their previous value when the draft field is blank and take the draft's value
  when it is not, and name, email, phone and website take the draft's value when the draft
  has one.
\<close>

theorem edit_commit_merges_draft:
  assumes "formMode s = Some Edit" and "currentUser s = Some cu"
    and "\<not> has_error (formErrors s)"
  shows "length (users (handleSubmit s)) = length (users s) \<and>
    (\<forall>k < length (users s).
       (uid (users s ! k) \<noteq> uid cu \<longrightarrow> users (handleSubmit s) ! k = users s ! k) \<and>
       (uid (users s ! k) = uid cu \<longrightarrow>
          kept_or_overwritten (fd_company_name (formData s))
            (company_name (company (users s ! k)))
            (company_name (company (users (handleSubmit s) ! k))) \<and>
          kept_or_overwritten (fd_street (formData s))
            (street (address (users s ! k)))
            (street (address (users (handleSubmit s) ! k))) \<and>
          kept_or_overwritten (fd_city (formData s))
            (city (address (users s ! k)))
            (city (address (users (handleSubmit s) ! k))) \<and>
          merged_over (fd_name (formData s)) (name (users s ! k))
            (name (users (handleSubmit s) ! k)) \<and>
          merged_over (fd_email (formData s)) (email (users s ! k))
            (email (users (handleSubmit s) ! k)) \<and>
          merged_over (fd_phone (formData s)) (phone (users s ! k))
            (phone (users (handleSubmit s) ! k)) \<and>
          merged_over (fd_website (formData s)) (website (users s ! k))
            (website (users (handleSubmit s) ! k))))"
proof -
  have u: "users (handleSubmit s) =
      map (\<lambda>u. if uid u = uid cu then merge_user u (formData s) else u) (users s)"
    by (simp add: handleSubmit_edit [OF assms])
  show ?thesis
    unfolding u by (simp add: merge_user_fields)
qed

theorem edit_commit_merges_draft_witness:
  "formMode edit_bob = Some Edit \<and> currentUser edit_bob = Some (sample_user 3 ''Bob'') \<and>
   \<not> has_error (formErrors edit_bob) \<and>
   blank (fd_company_name (formData edit_bob)) \<and> fd_city (formData edit_bob) = Some ''Paris'' \<and>
   users (handleSubmit edit_bob) ! 0 = sample_user 1 ''Ann'' \<and>
   company_name (company (users (handleSubmit edit_bob) ! 1)) = ''Acme'' \<and>
   city (address (users (handleSubmit edit_bob) ! 1)) = ''Paris'' \<and>
   street (address (users (handleSubmit edit_bob) ! 1)) = ''1 Main St'' \<and>
   users (handleSubmit edit_bob) ! 2 = sample_user 7 ''Cy''"
proof -
  note st = edit_bob_state
  have len: "0 < length (users edit_bob)" "1 < length (users edit_bob)"
    "2 < length (users edit_bob)"
    by (simp_all add: st users_1_3_7_def)
  have at: "users edit_bob ! 0 = sample_user 1 ''Ann''" "users edit_bob ! 1 = sample_user 3 ''Bob''"
    "users edit_bob ! 2 = sample_user 7 ''Cy''"
    by (simp_all add: st users_1_3_7_def)
  have ids: "uid (sample_user 1 ''Ann'') \<noteq> uid (sample_user 3 ''Bob'')"
    "uid (sample_user 7 ''Cy'') \<noteq> uid (sample_user 3 ''Bob'')"
    by (simp_all add: sample_user_def)
  have old: "company_name (company (sample_user 3 ''Bob'')) = ''Acme''"
    "city (address (sample_user 3 ''Bob'')) = ''Rome''"
    "street (address (sample_user 3 ''Bob'')) = ''1 Main St''"
    by (simp_all add: sample_user_def)
  have b: "blank (fd_company_name (formData edit_bob))" "\<not> blank (fd_city (formData edit_bob))"
    "\<not> blank (fd_street (formData edit_bob))"
    by (simp_all add: st blank_def)
  from edit_commit_merges_draft [OF st(1) st(2) st(3)]
  have all: "\<forall>k < length (users edit_bob).
       (uid (users edit_bob ! k) \<noteq> uid (sample_user 3 ''Bob'') \<longrightarrow>
          users (handleSubmit edit_bob) ! k = users edit_bob ! k) \<and>
       (uid (users edit_bob ! k) = uid (sample_user 3 ''Bob'') \<longrightarrow>
          kept_or_overwritten (fd_company_name (formData edit_bob))
            (company_name (company (users edit_bob ! k)))
            (company_name (company (users (handleSubmit edit_bob) ! k))) \<and>
          kept_or_overwritten (fd_street (formData edit_bob))
            (street (address (users edit_bob ! k)))
            (street (address (users (handleSubmit edit_bob) ! k))) \<and>
          kept_or_overwritten (fd_city (formData edit_bob))
            (city (address (users edit_bob ! k)))
            (city (address (users (handleSubmit edit_bob) ! k))))"
    by blast
  from all len(1) at(1) ids(1) have 0: "users (handleSubmit edit_bob) ! 0 = sample_user 1 ''Ann''"
    by metis
  from all len(3) at(3) ids(2) have 2: "users (handleSubmit edit_bob) ! 2 = sample_user 7 ''Cy''"
    by metis
  from all len(2) at(2)
  have "kept_or_overwritten (fd_company_name (formData edit_bob)) ''Acme''
            (company_name (company (users (handleSubmit edit_bob) ! 1)))"
    and "kept_or_overwritten (fd_street (formData edit_bob)) ''1 Main St''
            (street (address (users (handleSubmit edit_bob) ! 1)))"
    and "kept_or_overwritten (fd_city (formData edit_bob)) ''Rome''
            (city (address (users (handleSubmit edit_bob) ! 1)))"
    using old by metis+
  with b st(6,7) have 1: "company_name (company (users (handleSubmit edit_bob) ! 1)) = ''Acme''"
    "city (address (users (handleSubmit edit_bob) ! 1)) = ''Paris''"
    "street (address (users (handleSubmit edit_bob) ! 1)) = ''1 Main St''"
    by (simp_all add: kept_or_overwritten_def)
  from st(1,2,3) b(1) st(6) 0 1 2 show ?thesis by blast
qed

section \<open>Deletion confirmor\<close>

lemma delete_5_pending_state:
  "users delete_5_pending = users_4_5_6" "deleteConfirmation delete_5_pending = Some (Num 5)"
  by (simp_all add: delete_5_pending_def askDelete_def loaded_def fetchUsers_ok_def)

lemma ids_4_5_6: "map uid users_4_5_6 = [Num 4, Num 5, Num 6]"
  by (simp add: users_4_5_6_def sample_user_def)

text \<open>
  Claim C7. For every record set and every identifier present in it, confirming the
  deletion of that identifier returns the confirmor to idle, removes the records with
  that identifier and keeps all others, in their order; when identifiers are unique,
  exactly one record is removed. Cancelling returns to idle and leaves the record set as
  it is.
\<close>

theorem confirmed_deletion_removes_exactly:
  assumes "i \<in> uid ` set (users s)"
  shows "deleteConfirmation (handleDelete i s) = None \<and>
         set (users (handleDelete i s)) = {u \<in> set (users s). uid u \<noteq> i} \<and>
         filter (\<lambda>u. uid u \<noteq> i) (users s) = users (handleDelete i s) \<and>
         (unique_ids (users s) \<longrightarrow>
            (\<exists>pre r post. users s = pre @ r # post \<and> uid r = i \<and>
               users (handleDelete i s) = pre @ post)) \<and>
         users (cancelDelete s) = users s \<and> deleteConfirmation (cancelDelete s) = None"
proof -
  have exact: "\<exists>pre r post. users s = pre @ r # post \<and> uid r = i \<and>
      users (handleDelete i s) = pre @ post" if uniq: "unique_ids (users s)"
  proof -
    from assms obtain r where "r \<in> set (users s)" and r: "uid r = i" by auto
    then obtain pre post where split: "users s = pre @ r # post"
      by (auto dest: split_list)
    from uniq have "i \<notin> uid ` set pre" and "i \<notin> uid ` set post"
      unfolding unique_ids_def split using r by auto
    then have "filter (\<lambda>u. uid u \<noteq> i) pre = pre" and "filter (\<lambda>u. uid u \<noteq> i) post = post"
      by (auto simp: filter_id_conv)
    then have "users (handleDelete i s) = pre @ post"
      by (simp add: handleDelete_def split r)
    with split r show ?thesis by blast
  qed
  have "set (users (handleDelete i s)) = {u \<in> set (users s). uid u \<noteq> i}"
    by (simp add: handleDelete_def)
  moreover have "filter (\<lambda>u. uid u \<noteq> i) (users s) = users (handleDelete i s)"
    by (simp add: handleDelete_def)
  moreover have "deleteConfirmation (handleDelete i s) = None"
    by (simp add: handleDelete_def)
  moreover have "users (cancelDelete s) = users s \<and> deleteConfirmation (cancelDelete s) = None"
    by (simp add: cancelDelete_def)
  ultimately show ?thesis using exact by blast
qed

theorem confirmed_deletion_removes_exactly_witness:
  "Num 5 \<in> uid ` set (users delete_5_pending) \<and> unique_ids (users delete_5_pending) \<and>
   deleteConfirmation delete_5_pending = Some (Num 5) \<and>
   users (handleDelete (Num 5) delete_5_pending) = [sample_user 4 ''Dee'', sample_user 6 ''Fay''] \<and>
   deleteConfirmation (handleDelete (Num 5) delete_5_pending) = None \<and>
   users (cancelDelete delete_5_pending) = users_4_5_6 \<and>
   deleteConfirmation (cancelDelete delete_5_pending) = None"
proof -
  have "set (map uid (users delete_5_pending)) = {Num 4, Num 5, Num 6}"
    by (simp add: delete_5_pending_state ids_4_5_6)
  then have a: "Num 5 \<in> uid ` set (users delete_5_pending)" by simp
  have b: "unique_ids (users delete_5_pending)"
    by (simp add: unique_ids_def delete_5_pending_state ids_4_5_6)
  from confirmed_deletion_removes_exactly [OF a]
  have del: "filter (\<lambda>u. uid u \<noteq> Num 5) (users delete_5_pending) =
      users (handleDelete (Num 5) delete_5_pending)"
    and idle: "deleteConfirmation (handleDelete (Num 5) delete_5_pending) = None"
    and cancel: "users (cancelDelete delete_5_pending) = users delete_5_pending"
      "deleteConfirmation (cancelDelete delete_5_pending) = None"
    by blast+
  have "filter (\<lambda>u. uid u \<noteq> Num 5) (users delete_5_pending) =
      [sample_user 4 ''Dee'', sample_user 6 ''Fay'']"
    by (simp add: delete_5_pending_state users_4_5_6_def sample_user_def)
  with del have "users (handleDelete (Num 5) delete_5_pending) =
      [sample_user 4 ''Dee'', sample_user 6 ''Fay'']"
    by simp
  with a b idle cancel show ?thesis by (simp add: delete_5_pending_state)
qed

section \<open>Defaults of a created record\<close>

lemma create_name_only_state:
  "formMode create_name_only = Some Create" "\<not> has_error (formErrors create_name_only)"
  "fd_company_name (formData create_name_only) = None"
  "fd_website (formData create_name_only) = None"
  "fd_street (formData create_name_only) = None" "fd_city (formData create_name_only) = None"
  "users create_name_only = users_1_3_7"
  by (simp_all add: create_name_only_def handleInputChange_def validateField_def openCreate_def
      empty_form_def loaded_def fetchUsers_ok_def has_error_def all_fields_def)

text \<open>
  Claim C10. For every valid create-session submit in which the optional fields (company
  name, website) were never touched, the committed record has the empty string as company
  name and no website; the website is absent, not the empty string. Street and city are
  the empty string as well when the draft has none.
\<close>

theorem create_defaults:
  assumes "formMode s = Some Create" and "\<not> has_error (formErrors s)"
    and "fd_company_name (formData s) = None" and "fd_website (formData s) = None"
  shows "users (handleSubmit s) = users s @ [newUser (users s) (formData s)] \<and>
         company_name (company (newUser (users s) (formData s))) = [] \<and>
         website (newUser (users s) (formData s)) = None \<and>
         website (newUser (users s) (formData s)) \<noteq> Some [] \<and>
         (fd_street (formData s) = None \<longrightarrow> street (address (newUser (users s) (formData s))) = []) \<and>
         (fd_city (formData s) = None \<longrightarrow> city (address (newUser (users s) (formData s))) = [])"
  using assms(3,4)
  by (simp add: handleSubmit_create [OF assms(1,2)] newUser_def or_else_def)

theorem create_defaults_witness:
  "formMode create_name_only = Some Create \<and> \<not> has_error (formErrors create_name_only) \<and>
   fd_company_name (formData create_name_only) = None \<and>
   fd_website (formData create_name_only) = None \<and>
   fd_street (formData create_name_only) = None \<and> fd_city (formData create_name_only) = None \<and>
   length (users (handleSubmit create_name_only)) = 4 \<and>
   company_name (company (last (users (handleSubmit create_name_only)))) = [] \<and>
   street (address (last (users (handleSubmit create_name_only)))) = [] \<and>
   city (address (last (users (handleSubmit create_name_only)))) = [] \<and>
   website (last (users (handleSubmit create_name_only))) = None \<and>
   name (last (users (handleSubmit create_name_only))) = Some ''Jane Doe''"
proof -
  note st = create_name_only_state
  from create_defaults [OF st(1) st(2) st(3) st(4)] st(5,6)
  have "users (handleSubmit create_name_only) =
      users create_name_only @ [newUser (users create_name_only) (formData create_name_only)]"
    and "company_name (company (newUser (users create_name_only) (formData create_name_only))) = []"
    and "website (newUser (users create_name_only) (formData create_name_only)) = None"
    and "street (address (newUser (users create_name_only) (formData create_name_only))) = []"
    and "city (address (newUser (users create_name_only) (formData create_name_only))) = []"
    by simp_all
  moreover have "name (newUser (users create_name_only) (formData create_name_only)) = Some ''Jane Doe''"
    by (simp add: newUser_def create_name_only_def handleInputChange_def validateField_def)
  ultimately show ?thesis using st by (simp add: users_1_3_7_def)
qed

section \<open>List view\<close>







lemma filter_users_unnamed:
  "\<not> list_all (\<lambda>u. name u \<noteq> None) us \<Longrightarrow> filter_users t us = Inl TypeError"
proof (induction us)
  case Nil
  then show ?case by simp
next
  case (Cons u us)
  then show ?case
    by (cases "name u") (auto split: sum.splits)
qed






end
